theory Spec2Isabelle
  imports Complex_Main "HOL-Library.Multiset"
begin


section \<open>Python values used by the notebook\<close>

text \<open>
  The notebook \<^verbatim>\<open>examples/Code_search_using_embeddings.ipynb\<close> extracts function
  definitions from Python files and ranks them against a query. Its helper functions are
  embedded here one by one. An exception of the Python code is a value \<open>Inl e\<close> of the
  result type \<open>py_error + 'a\<close>; a normal return is \<open>Inr v\<close>.
\<close>

datatype py_error = IndexError | ValueError | ZeroDivisionError | EmbeddingError

text \<open>\<^verbatim>\<open>s.startswith(p)\<close>\<close>

definition startswith :: "string \<Rightarrow> string \<Rightarrow> bool" where
  "startswith s p = (take (length p) s = p)"

text \<open>\<^verbatim>\<open>s.index(c)\<close> for a one-character string \<open>c\<close>: the position of its first
  occurrence, \<^verbatim>\<open>ValueError\<close> when there is none.\<close>

fun str_index :: "string \<Rightarrow> char \<Rightarrow> py_error + nat" where
  "str_index [] c = Inl ValueError"
| "str_index (x # xs) c = (if x = c then Inr 0 else map_sum id Suc (str_index xs c))"

text \<open>\<^verbatim>\<open>s[a:b]\<close> for non-negative \<open>a\<close> and \<open>b\<close> (empty when \<open>b \<le> a\<close>).\<close>

definition slice :: "'a list \<Rightarrow> nat \<Rightarrow> nat \<Rightarrow> 'a list" where
  "slice s a b = drop a (take b s)"

text \<open>\<^verbatim>\<open>xs[:n]\<close> for any integer \<open>n\<close>: a negative \<open>n\<close> counts from the end.\<close>

definition slice_to :: "'a list \<Rightarrow> int \<Rightarrow> 'a list" where
  "slice_to xs n = (if 0 \<le> n then take (nat n) xs else take (length xs - nat (- n)) xs)"

text \<open>\<^verbatim>\<open>xs[i]\<close> for any integer \<open>i\<close>: a negative index counts from the end, an index
  out of range raises \<^verbatim>\<open>IndexError\<close>.\<close>

definition getitem :: "'a list \<Rightarrow> int \<Rightarrow> py_error + 'a" where
  "getitem xs i =
     (if 0 \<le> i \<and> i < int (length xs) then Inr (xs ! nat i)
      else if i < 0 \<and> - int (length xs) \<le> i then Inr (xs ! nat (int (length xs) + i))
      else Inl IndexError)"

text \<open>\<^verbatim>\<open>sep.join(xs)\<close> and \<^verbatim>\<open>s.split(sep)\<close> for a one-character separator, and
  \<^verbatim>\<open>s.replace(a, b)\<close> for one-character strings.\<close>

fun str_join :: "char \<Rightarrow> string list \<Rightarrow> string" where
  "str_join sep [] = []"
| "str_join sep [x] = x"
| "str_join sep (x # y # ys) = x @ sep # str_join sep (y # ys)"

fun str_split :: "char \<Rightarrow> string \<Rightarrow> string list" where
  "str_split sep [] = [[]]"
| "str_split sep (c # cs) =
     (if c = sep then [] # str_split sep cs
      else (case str_split sep cs of
              [] \<Rightarrow> [[c]]
            | l # ls \<Rightarrow> (c # l) # ls))"

definition str_replace :: "char \<Rightarrow> char \<Rightarrow> string \<Rightarrow> string" where
  "str_replace a b s = map (\<lambda>c. if c = a then b else c) s"

text \<open>\<^verbatim>\<open>str(n)\<close> for a natural number, as the f-strings of the notebook print a count.\<close>

definition digit_char :: "nat \<Rightarrow> char" where
  "digit_char d = ''0123456789'' ! d"

function str_nat :: "nat \<Rightarrow> string" where
  "str_nat n = (if n < 10 then [digit_char n] else str_nat (n div 10) @ [digit_char (n mod 10)])"
  by pat_completeness auto
termination
  by (relation "measure (\<lambda>n. n)") auto

section \<open>The extractor\<close>

definition DEF_PREFIXES :: "string list" where
  "DEF_PREFIXES = [''def '', ''async def '']"

definition NEWLINE :: char where
  "NEWLINE = CHR 0x0A"

definition CARRIAGE_RETURN :: char where
  "CARRIAGE_RETURN = CHR 0x0D"

text \<open>
  \<^verbatim>\<open>
  def get_function_name(code):
      for prefix in DEF_PREFIXES:
          if code.startswith(prefix):
              return code[len(prefix): code.index('(')]
  \<close>
  The loop returns at the first prefix that matches; falling off the end of the loop
  returns \<^verbatim>\<open>None\<close>.
\<close>

definition get_function_name :: "string \<Rightarrow> py_error + string option" where
  "get_function_name code =
     (case find (startswith code) DEF_PREFIXES of
        None \<Rightarrow> Inr None
      | Some prefix \<Rightarrow>
          (case str_index code (CHR ''('') of
             Inl e \<Rightarrow> Inl e
           | Inr k \<Rightarrow> Inr (Some (slice code (length prefix) k))))"

text \<open>
  \<^verbatim>\<open>
  def get_until_no_space(all_lines, i):
      ret = [all_lines[i]]
      for j in range(i + 1, len(all_lines)):
          if len(all_lines[j]) == 0 or all_lines[j][0] in [' ', '\t', ')']:
              ret.append(all_lines[j])
          else:
              break
      return NEWLINE.join(ret)
  \<close>
  \<open>inside_definition\<close> is the test of the loop body, \<open>until_no_space_loop\<close> the loop from
  \<open>j\<close> on with the lines collected so far.
\<close>

definition inside_definition :: "string \<Rightarrow> bool" where
  "inside_definition l =
     (length l = 0 \<or> (case l of [] \<Rightarrow> False | c # _ \<Rightarrow> c \<in> set [CHR '' '', CHR 0x09, CHR '')'']))"

function until_no_space_loop :: "string list \<Rightarrow> int \<Rightarrow> string list \<Rightarrow> py_error + string list" where
  "until_no_space_loop all_lines j ret =
     (if j < int (length all_lines) then
        (case getitem all_lines j of
           Inl e \<Rightarrow> Inl e
         | Inr l \<Rightarrow>
             if inside_definition l then until_no_space_loop all_lines (j + 1) (ret @ [l])
             else Inr ret)
      else Inr ret)"
  by pat_completeness auto
termination
  by (relation "measure (\<lambda>(all_lines, j, ret). nat (int (length all_lines) - j))") auto

definition get_until_no_space :: "string list \<Rightarrow> int \<Rightarrow> py_error + string" where
  "get_until_no_space all_lines i =
     (case getitem all_lines i of
        Inl e \<Rightarrow> Inl e
      | Inr l \<Rightarrow>
          (case until_no_space_loop all_lines (i + 1) [l] of
             Inl e \<Rightarrow> Inl e
           | Inr ret \<Rightarrow> Inr (str_join NEWLINE ret)))"


text \<open>
  \<^verbatim>\<open>
  def get_functions(filepath):
      with open(filepath, 'r') as file:
          all_lines = file.read().replace('\r', NEWLINE).split(NEWLINE)
          for i, l in enumerate(all_lines):
              for prefix in DEF_PREFIXES:
                  if l.startswith(prefix):
                      code = get_until_no_space(all_lines, i)
                      function_name = get_function_name(code)
                      yield {'code': code, 'function_name': function_name, 'filepath': filepath}
                      break
  \<close>
  A yielded dictionary is a record \<open>extracted\<close>. The file is given by the text that
  \<^verbatim>\<open>file.read()\<close> returns. \<open>get_functions_scan\<close> is the loop over
  \<^verbatim>\<open>enumerate(all_lines)\<close>; the inner loop takes the first prefix that matches, yields
  once and breaks. The generator is consumed to its end by its only caller, so an exception
  raised while it runs is the result of the whole scan.
\<close>

record extracted =
  code :: string
  function_name :: "string option"
  filepath :: string

fun get_functions_scan :: "string \<Rightarrow> string list \<Rightarrow> (nat \<times> string) list \<Rightarrow> py_error + extracted list" where
  "get_functions_scan path all_lines [] = Inr []"
| "get_functions_scan path all_lines ((i, l) # rest) =
     (case find (startswith l) DEF_PREFIXES of
        None \<Rightarrow> get_functions_scan path all_lines rest
      | Some prefix \<Rightarrow>
          (case get_until_no_space all_lines (int i) of
             Inl e \<Rightarrow> Inl e
           | Inr body \<Rightarrow>
               (case get_function_name body of
                  Inl e \<Rightarrow> Inl e
                | Inr name \<Rightarrow>
                    (case get_functions_scan path all_lines rest of
                       Inl e \<Rightarrow> Inl e
                     | Inr funcs \<Rightarrow>
                         Inr (\<lparr>code = body, function_name = name, filepath = path\<rparr> # funcs)))))"

definition get_functions :: "string \<Rightarrow> string \<Rightarrow> py_error + extracted list" where
  "get_functions path contents =
     (let all_lines = str_split NEWLINE (str_replace CARRIAGE_RETURN NEWLINE contents)
      in get_functions_scan path all_lines (enumerate 0 all_lines))"

text \<open>
  \<^verbatim>\<open>
  def extract_functions_from_repo(code_root):
      code_files = list(code_root.glob('**/*.py'))
      num_files = len(code_files)
      print(f'Total number of .py files: {num_files}')
      if num_files == 0:
          print('Verify openai-python repo exists and code_root is set correctly.')
          return None
      all_funcs = [func for code_file in code_files for func in get_functions(str(code_file))]
      num_funcs = len(all_funcs)
      print(f'Total number of functions extracted: {num_funcs}')
      return all_funcs
  \<close>
  The source root is given by what the glob finds in it: the paths of its \<^verbatim>\<open>.py\<close> files,
  in the order of the glob, each with its text. A root that does not exist and a root
  without such files both give the empty list. The function returns its value (or the
  exception) together with the lines it has printed.
\<close>

fun all_functions :: "(string \<times> string) list \<Rightarrow> py_error + extracted list" where
  "all_functions [] = Inr []"
| "all_functions ((code_file, contents) # rest) =
     (case get_functions code_file contents of
        Inl e \<Rightarrow> Inl e
      | Inr funcs \<Rightarrow>
          (case all_functions rest of
             Inl e \<Rightarrow> Inl e
           | Inr others \<Rightarrow> Inr (funcs @ others)))"

definition extract_functions_from_repo ::
  "(string \<times> string) list \<Rightarrow> (py_error + extracted list option) \<times> string list" where
  "extract_functions_from_repo code_files =
     (let num_files = length code_files;
          printed = [''Total number of .py files: '' @ str_nat num_files]
      in if num_files = 0 then
           (Inr None,
            printed @ [''Verify openai-python repo exists and code_root is set correctly.''])
         else
           (case all_functions code_files of
              Inl e \<Rightarrow> (Inl e, printed)
            | Inr all_funcs \<Rightarrow>
                (Inr (Some all_funcs),
                 printed @ [''Total number of functions extracted: '' @ str_nat (length all_funcs)])))"

section \<open>The extractor as the specification words it\<close>

text \<open>
  The specification calls a line a definition start when it begins with one of the
  prefixes, and the lines of a file its text split on newline after carriage returns have
  become newlines. The code field it describes for a definition start at line \<open>i\<close> is line
  \<open>i\<close> joined with the longest run of following lines that are empty or begin with a
  character of \<open>ws\<close> or with a closing parenthesis. \<open>python_whitespace\<close> is
  \<^verbatim>\<open>string.whitespace\<close>; \<open>space_or_tab\<close> holds the two characters the code tests.
\<close>

definition is_definition_start :: "string \<Rightarrow> bool" where
  "is_definition_start l = (\<exists>p \<in> set DEF_PREFIXES. startswith l p)"

definition file_lines :: "string \<Rightarrow> string list" where
  "file_lines contents = str_split NEWLINE (str_replace CARRIAGE_RETURN NEWLINE contents)"

definition num_definitions :: "string \<Rightarrow> nat" where
  "num_definitions contents = length (filter is_definition_start (file_lines contents))"

definition python_whitespace :: "char set" where
  "python_whitespace = {CHR '' '', CHR 0x09, CHR 0x0A, CHR 0x0D, CHR 0x0B, CHR 0x0C}"

definition space_or_tab :: "char set" where
  "space_or_tab = {CHR '' '', CHR 0x09}"

definition continuation_line :: "char set \<Rightarrow> string \<Rightarrow> bool" where
  "continuation_line ws l = (case l of [] \<Rightarrow> True | c # _ \<Rightarrow> c \<in> ws \<or> c = CHR '')'')"

definition spec_code_field :: "char set \<Rightarrow> string list \<Rightarrow> nat \<Rightarrow> string" where
  "spec_code_field ws all_lines i =
     str_join NEWLINE (all_lines ! i # takeWhile (continuation_line ws) (drop (Suc i) all_lines))"

text \<open>The definition starts of a file whose extracted code holds an opening parenthesis.\<close>

definition definitions_have_paren :: "string \<Rightarrow> bool" where
  "definitions_have_paren contents =
     list_all (\<lambda>(i, l). is_definition_start l
                 \<longrightarrow> CHR ''('' \<in> set (spec_code_field space_or_tab (file_lines contents) i))
       (enumerate 0 (file_lines contents))"

text \<open>
  The record that the extractor emits for the definition start at line \<open>i\<close> when the name
  lookup succeeds, and the lines that the code field of line \<open>i\<close> is made of: line \<open>i\<close> and
  the run after it, so line \<open>j\<close> is one of them when it lies within the run.
\<close>

definition record_at :: "string \<Rightarrow> string list \<Rightarrow> nat \<Rightarrow> extracted" where
  "record_at path all_lines i =
     \<lparr>code = spec_code_field space_or_tab all_lines i,
      function_name =
        (case get_function_name (spec_code_field space_or_tab all_lines i) of
           Inl e \<Rightarrow> None
         | Inr name \<Rightarrow> name),
      filepath = path\<rparr>"

definition in_code_field :: "string list \<Rightarrow> nat \<Rightarrow> nat \<Rightarrow> bool" where
  "in_code_field all_lines i j =
     (i \<le> j \<and> j \<le> i + length (takeWhile (continuation_line space_or_tab) (drop (Suc i) all_lines)))"

section \<open>The searcher\<close>

text \<open>
  Modelled from the spec: \<^verbatim>\<open>cosine_similarity\<close> is imported from
  \<^verbatim>\<open>utils/embeddings_utils.py\<close>, a file of the repository that is not among the sources
  at hand. The specification gives it as the dot product divided by the product of the two
  vectors' magnitudes, undefined unless both vectors have the same non-zero dimension, and
  failing with a division by zero when a zero vector is compared. The numbers are real
  numbers here: the rounding of floating-point arithmetic is not part of the model.
\<close>

definition dot :: "real list \<Rightarrow> real list \<Rightarrow> real" where
  "dot a b = sum_list (map (\<lambda>(x, y). x * y) (zip a b))"

definition magnitude :: "real list \<Rightarrow> real" where
  "magnitude a = sqrt (dot a a)"

definition cosine_similarity :: "real list \<Rightarrow> real list \<Rightarrow> py_error + real" where
  "cosine_similarity a b =
     (if length a \<noteq> length b \<or> length a = 0 then Inl ValueError
      else if magnitude a * magnitude b = 0 then Inl ZeroDivisionError
      else Inr (dot a b / (magnitude a * magnitude b)))"

text \<open>
  A row of the corpus has the columns \<^verbatim>\<open>code\<close>, \<^verbatim>\<open>function_name\<close>,
  \<^verbatim>\<open>filepath\<close> and \<^verbatim>\<open>code_embedding\<close>. A data frame is the list of its rows, each with
  its index label, and the column \<^verbatim>\<open>similarities\<close>, which is absent (\<open>None\<close>) until a
  search assigns it.
\<close>

record SourceRecord = extracted +
  code_embedding :: "real list"

record DataFrame =
  rows :: "(nat \<times> SourceRecord) list"
  similarities :: "real list option"

text \<open>\<^verbatim>\<open>series.apply(f)\<close>: \<open>f\<close> on every element in order; the first exception ends it.\<close>

fun series_apply :: "('a \<Rightarrow> py_error + 'b) \<Rightarrow> 'a list \<Rightarrow> py_error + 'b list" where
  "series_apply f [] = Inr []"
| "series_apply f (x # xs) =
     (case f x of
        Inl e \<Rightarrow> Inl e
      | Inr y \<Rightarrow>
          (case series_apply f xs of
             Inl e \<Rightarrow> Inl e
           | Inr ys \<Rightarrow> Inr (y # ys)))"

text \<open>
  What one pass of the printing loop shows for a result row: the path, the name, the score
  (the notebook prints it rounded to three decimals) and the first \<^verbatim>\<open>n_lines\<close> lines of
  the code.
\<close>

record shown =
  shown_filepath :: string
  shown_function_name :: "string option"
  shown_score :: real
  shown_code :: "string list"

text \<open>
  \<^verbatim>\<open>
  def search_functions(df, code_query, n=3, pprint=True, n_lines=7):
      embedding = get_embedding(code_query, model='text-embedding-3-small')
      df['similarities'] = df.code_embedding.apply(lambda x: cosine_similarity(x, embedding))
      res = df.sort_values('similarities', ascending=False).head(n)
      if pprint:
          for r in res.iterrows():
              print(f"{r[1].filepath}:{r[1].function_name}  score={round(r[1].similarities, 3)}")
              print("\n".join(r[1].code.split("\n")[:n_lines]))
              print('-' * 70)
      return res
  \<close>
  The embedding service \<^verbatim>\<open>get_embedding\<close> and the sort of pandas
  (\<^verbatim>\<open>sort_values\<close>, given its flag \<^verbatim>\<open>ascending\<close> and the rows paired with their
  score) are parameters; the notebook passes \<^verbatim>\<open>ascending=False\<close>. The assignment to
  \<^verbatim>\<open>df['similarities']\<close> changes the caller's data frame, so the function returns,
  beside its result or exception, the data frame as the call leaves it. \<open>sorts_by_score\<close>
  is what is assumed of the sort of pandas: it permutes the rows and puts the scores in
  non-decreasing order when \<^verbatim>\<open>ascending\<close> is true and in non-increasing order when it
  is false; the notebook does not ask pandas for a stable sort, and nothing is assumed about
  the order of rows with equal scores.
\<close>

definition sorts_by_score :: "(bool \<Rightarrow> (real \<times> 'a) list \<Rightarrow> (real \<times> 'a) list) \<Rightarrow> bool" where
  "sorts_by_score sort_values =
     (\<forall>ascending xs.
        mset (sort_values ascending xs) = mset xs
        \<and> sorted_wrt (\<lambda>a b. if ascending then fst a \<le> fst b else fst b \<le> fst a)
              (sort_values ascending xs))"

definition search_functions ::
  "(string \<Rightarrow> py_error + real list)
     \<Rightarrow> (bool \<Rightarrow> (real \<times> nat \<times> SourceRecord) list \<Rightarrow> (real \<times> nat \<times> SourceRecord) list)
     \<Rightarrow> DataFrame \<Rightarrow> string \<Rightarrow> int \<Rightarrow> bool \<Rightarrow> int
     \<Rightarrow> (py_error + DataFrame \<times> shown list) \<times> DataFrame" where
  "search_functions get_embedding sort_values df code_query n pprint n_lines =
     (case get_embedding code_query of
        Inl e \<Rightarrow> (Inl e, df)
      | Inr embedding \<Rightarrow>
          (case series_apply (\<lambda>x. cosine_similarity (code_embedding (snd x)) embedding) (rows df) of
             Inl e \<Rightarrow> (Inl e, df)
           | Inr scores \<Rightarrow>
               (let df' = df\<lparr>similarities := Some scores\<rparr>;
                    top = slice_to (sort_values False (zip scores (rows df'))) n;
                    res = \<lparr>rows = map snd top, similarities = Some (map fst top)\<rparr>;
                    printed =
                      (if pprint then
                         map (\<lambda>(score, label, r).
                                \<lparr>shown_filepath = filepath r,
                                 shown_function_name = function_name r,
                                 shown_score = score,
                                 shown_code = slice_to (str_split NEWLINE (code r)) n_lines\<rparr>) top
                       else [])
                in (Inr (res, printed), df'))))"

text \<open>
  One sort that meets \<open>sorts_by_score\<close>, for running the search on a concrete corpus:
  insertion sort by score, and for the descending order insertion sort on the reversed
  list, reversed again.
\<close>

definition insertion_sort_values :: "bool \<Rightarrow> (real \<times> 'a) list \<Rightarrow> (real \<times> 'a) list" where
  "insertion_sort_values ascending xs =
     (if ascending then sort_key fst xs else rev (sort_key fst (rev xs)))"

section \<open>Facts about the string helpers\<close>

lemma startswith_iff: "startswith s p \<longleftrightarrow> (\<exists>r. s = p @ r)"
proof
  assume "startswith s p"
  then have "s = p @ drop (length p) s"
    by (metis append_take_drop_id startswith_def)
  then show "\<exists>r. s = p @ r" ..
next
  assume "\<exists>r. s = p @ r"
  then show "startswith s p"
    by (auto simp: startswith_def)
qed

lemma str_index_first: "c \<notin> set pre \<Longrightarrow> str_index (pre @ c # rest) c = Inr (length pre)"
  by (induction pre) auto

lemma str_index_none: "c \<notin> set s \<Longrightarrow> str_index s c = Inl ValueError"
  by (induction s) auto

lemma str_index_some: "c \<in> set s \<Longrightarrow> \<exists>k. str_index s c = Inr k"
  by (induction s) auto

lemma slice_middle: "slice (p @ name @ rest) (length p) (length p + length name) = name"
  by (simp add: slice_def)

section \<open>The name of a definition\<close>

text \<open>
  Claim C4. When the input is a definition prefix \<open>p\<close>, then a text \<open>name\<close> without an opening
  parenthesis, then an opening parenthesis, \<open>get_function_name\<close> returns exactly \<open>name\<close>: the
  substring between the matched prefix and the first opening parenthesis. When the input
  starts with none of the prefixes it returns \<^verbatim>\<open>None\<close>.
\<close>

theorem get_function_name_between:
  "(p \<in> set DEF_PREFIXES \<and> src = p @ name @ CHR ''('' # rest \<and> CHR ''('' \<notin> set name
      \<longrightarrow> get_function_name src = Inr (Some name))
   \<and> ((\<forall>q \<in> set DEF_PREFIXES. \<not> startswith src q) \<longrightarrow> get_function_name src = Inr None)"
proof (intro conjI impI)
  assume a: "p \<in> set DEF_PREFIXES \<and> src = p @ name @ CHR ''('' # rest \<and> CHR ''('' \<notin> set name"
  then have src: "src = (p @ name) @ CHR ''('' # rest" and free: "CHR ''('' \<notin> set (p @ name)"
    by (auto simp: DEF_PREFIXES_def)
  have idx: "str_index src (CHR ''('') = Inr (length p + length name)"
    unfolding src using str_index_first [OF free] by simp
  have sl: "slice src (length p) (length p + length name) = name"
    using a slice_middle [of p name "CHR ''('' # rest"] by simp
  have "find (startswith src) DEF_PREFIXES = Some p"
    using a by (auto simp: DEF_PREFIXES_def startswith_def)
  then show "get_function_name src = Inr (Some name)"
    by (simp add: get_function_name_def idx sl)
next
  assume "\<forall>q \<in> set DEF_PREFIXES. \<not> startswith src q"
  then have "find (startswith src) DEF_PREFIXES = None"
    by (simp add: find_None_iff)
  then show "get_function_name src = Inr None"
    by (simp add: get_function_name_def)
qed

theorem get_function_name_between_witness:
  "get_function_name ''def log_debug(message, **params):'' = Inr (Some ''log_debug'')
   \<and> get_function_name ''async def fetch(url):'' = Inr (Some ''fetch'')
   \<and> get_function_name ''class Foo(object):'' = Inr None"
proof -
  have 1: "get_function_name ''def log_debug(message, **params):'' = Inr (Some ''log_debug'')"
    using get_function_name_between
      [of "''def ''" "''def log_debug(message, **params):''" "''log_debug''" "''message, **params):''"]
    by (simp add: DEF_PREFIXES_def)
  have 2: "get_function_name ''async def fetch(url):'' = Inr (Some ''fetch'')"
    using get_function_name_between
      [of "''async def ''" "''async def fetch(url):''" "''fetch''" "''url):''"]
    by (simp add: DEF_PREFIXES_def)
  have 3: "get_function_name ''class Foo(object):'' = Inr None"
    using get_function_name_between [of "[]" "''class Foo(object):''" "[]" "[]"]
    by (simp add: DEF_PREFIXES_def startswith_def)
  from 1 2 3 show ?thesis by simp
qed


section \<open>The code of a definition\<close>

lemma inside_definition_iff: "inside_definition l = continuation_line space_or_tab l"
  by (cases l) (auto simp: inside_definition_def continuation_line_def space_or_tab_def)

lemma getitem_nat: "n < length xs \<Longrightarrow> getitem xs (int n) = Inr (xs ! n)"
  by (simp add: getitem_def)

text \<open>From a non-negative \<open>j\<close> on, the loop appends the longest run of lines that pass its
  test and never fails.\<close>

lemma until_no_space_loop_eq:
  "0 \<le> j \<Longrightarrow>
   until_no_space_loop all_lines j ret =
     Inr (ret @ takeWhile inside_definition (drop (nat j) all_lines))"
proof (induction all_lines j ret rule: until_no_space_loop.induct)
  case (1 all_lines j ret)
  show ?case
  proof (cases "j < int (length all_lines)")
    case False
    with "1.prems" show ?thesis by simp
  next
    case True
    with "1.prems" have n: "nat j < length all_lines" by simp
    have g: "getitem all_lines j = Inr (all_lines ! nat j)"
      using getitem_nat [OF n] "1.prems" by simp
    have d: "drop (nat j) all_lines = all_lines ! nat j # drop (nat (j + 1)) all_lines"
      using n "1.prems" by (simp add: Cons_nth_drop_Suc nat_add_distrib)
    show ?thesis
    proof (cases "inside_definition (all_lines ! nat j)")
      case False
      then show ?thesis
        using True g d by (subst until_no_space_loop.simps) simp
    next
      case ins: True
      have "until_no_space_loop all_lines (j + 1) (ret @ [all_lines ! nat j]) =
              Inr ((ret @ [all_lines ! nat j]) @ takeWhile inside_definition (drop (nat (j + 1)) all_lines))"
        using "1.IH" [OF True g ins] "1.prems" by simp
      then show ?thesis
        using True g d ins by (subst until_no_space_loop.simps) simp
    qed
  qed
qed

lemma get_until_no_space_eq:
  "i < length all_lines \<Longrightarrow>
   get_until_no_space all_lines (int i) =
     Inr (str_join NEWLINE (all_lines ! i # takeWhile inside_definition (drop (Suc i) all_lines)))"
  using until_no_space_loop_eq [of "int i + 1" all_lines "[all_lines ! i]"]
  by (simp add: get_until_no_space_def getitem_nat nat_add_distrib)

lemma get_until_no_space_spec:
  "i < length all_lines \<Longrightarrow>
   get_until_no_space all_lines (int i) = Inr (spec_code_field space_or_tab all_lines i)"
proof -
  assume i: "i < length all_lines"
  have "inside_definition = continuation_line space_or_tab"
    by (rule ext) (rule inside_definition_iff)
  then show ?thesis
    using get_until_no_space_eq [OF i] by (simp add: spec_code_field_def)
qed

text \<open>
  Claim C2, as the specification states it: the code field is line \<open>i\<close> joined with the
  longest run of following lines that are empty or begin with a whitespace character or a
  closing parenthesis. The code tests for a space and a tab only. A line that begins with a
  form feed, which Python accepts before the indentation of a line, ends the run: the code
  field of \<^verbatim>\<open>def f():\<close> below is its first line alone.
\<close>

theorem get_until_no_space_whitespace_counterexample:
  "get_until_no_space [''def f():'', CHR 0x0C # ''    return 1'', ''x = 2''] 0
     \<noteq> Inr (spec_code_field python_whitespace
              [''def f():'', CHR 0x0C # ''    return 1'', ''x = 2''] 0)"
  by (simp add: get_until_no_space_eq [of 0, simplified] spec_code_field_def inside_definition_def
      continuation_line_def python_whitespace_def)

text \<open>
  Claim C2, amended: for every list of lines and every index \<open>i\<close> of it, the code field is
  line \<open>i\<close> joined by newline with exactly the longest run of immediately following lines
  that are each empty or begin with a space, a tab or a closing parenthesis; for the last
  line of a file it is that line alone.
\<close>

theorem get_until_no_space_run:
  "i < length all_lines \<Longrightarrow>
   get_until_no_space all_lines (int i) = Inr (spec_code_field space_or_tab all_lines i)
   \<and> (Suc i = length all_lines \<longrightarrow> get_until_no_space all_lines (int i) = Inr (all_lines ! i))"
proof -
  assume i: "i < length all_lines"
  have a: "get_until_no_space all_lines (int i) = Inr (spec_code_field space_or_tab all_lines i)"
    using get_until_no_space_spec [OF i] .
  have b: "Suc i = length all_lines \<longrightarrow> get_until_no_space all_lines (int i) = Inr (all_lines ! i)"
    using get_until_no_space_eq [OF i] by simp
  from a b show ?thesis by simp
qed

theorem get_until_no_space_run_witness:
  "get_until_no_space
     [''x = 1'', ''def f(a,'', ''      b):'', [], ''    return a'', '')'', ''y = 2''] 1
     = Inr (''def f(a,'' @ [NEWLINE] @ ''      b):'' @ [NEWLINE] @ [NEWLINE]
            @ ''    return a'' @ [NEWLINE] @ '')'')
   \<and> get_until_no_space [''x = 1'', ''def f(): pass''] 1 = Inr ''def f(): pass''"
proof -
  have 1: "get_until_no_space
     [''x = 1'', ''def f(a,'', ''      b):'', [], ''    return a'', '')'', ''y = 2''] (int 1)
     = Inr (''def f(a,'' @ [NEWLINE] @ ''      b):'' @ [NEWLINE] @ [NEWLINE]
            @ ''    return a'' @ [NEWLINE] @ '')'')"
    using get_until_no_space_run
      [of 1 "[''x = 1'', ''def f(a,'', ''      b):'', [], ''    return a'', '')'', ''y = 2'']"]
    by (simp add: spec_code_field_def continuation_line_def space_or_tab_def)
  have 2: "get_until_no_space [''x = 1'', ''def f(): pass''] (int 1) = Inr ''def f(): pass''"
    using get_until_no_space_run [of 1 "[''x = 1'', ''def f(): pass'']"]
    by (simp add: spec_code_field_def)
  from 1 2 show ?thesis by simp
qed

section \<open>The name lookup is partial\<close>

lemma startswith_extend: "startswith l p \<Longrightarrow> startswith (l @ r) p"
  by (auto simp: startswith_iff)

lemma str_join_Cons: "\<exists>r. str_join sep (l # ls) = l @ r"
  by (cases ls) auto

lemma is_definition_start_find:
  "is_definition_start l \<longleftrightarrow> (\<exists>p. find (startswith l) DEF_PREFIXES = Some p)"
  by (cases "find (startswith l) DEF_PREFIXES")
    (auto simp: is_definition_start_def find_None_iff find_Some_iff)

lemma get_function_name_paren:
  assumes "is_definition_start src" and "CHR ''('' \<in> set src"
  shows "\<exists>name. get_function_name src = Inr (Some name)"
proof -
  obtain k where k: "str_index src (CHR ''('') = Inr k"
    using str_index_some [OF assms(2)] by blast
  obtain p where "find (startswith src) DEF_PREFIXES = Some p"
    using assms(1) is_definition_start_find by blast
  then show ?thesis
    by (simp add: get_function_name_def k)
qed

lemma get_function_name_no_paren:
  assumes "is_definition_start src" and "CHR ''('' \<notin> set src"
  shows "get_function_name src = Inl ValueError"
proof -
  obtain p where "find (startswith src) DEF_PREFIXES = Some p"
    using assms(1) is_definition_start_find by blast
  then show ?thesis
    by (simp add: get_function_name_def str_index_none [OF assms(2)])
qed

text \<open>
  Claim C10. \<open>get_function_name\<close> is partial. On an input that starts with a definition
  prefix and holds no opening parenthesis the lookup raises \<^verbatim>\<open>ValueError\<close>, an error
  value of the embedding; so on an input that starts with a prefix a result is returned
  only if the input holds an opening parenthesis. For a definition start whose own line
  holds an opening parenthesis the code that \<open>get_until_no_space\<close> extracts has a name: the
  error is not reached.
\<close>

theorem get_function_name_partial:
  "(is_definition_start src \<and> CHR ''('' \<notin> set src \<longrightarrow> get_function_name src = Inl ValueError)
   \<and> (is_definition_start src \<and> get_function_name src = Inr r \<longrightarrow> CHR ''('' \<in> set src)
   \<and> (i < length all_lines \<and> is_definition_start (all_lines ! i)
        \<and> CHR ''('' \<in> set (all_lines ! i)
      \<longrightarrow> (\<exists>c name. get_until_no_space all_lines (int i) = Inr c
            \<and> get_function_name c = Inr (Some name)))"
proof (intro conjI impI)
  assume "is_definition_start src \<and> CHR ''('' \<notin> set src"
  then show "get_function_name src = Inl ValueError"
    using get_function_name_no_paren by blast
next
  assume a: "is_definition_start src \<and> get_function_name src = Inr r"
  show "CHR ''('' \<in> set src"
  proof (rule ccontr)
    assume "CHR ''('' \<notin> set src"
    with a have "get_function_name src = Inl ValueError"
      using get_function_name_no_paren by blast
    with a show False by simp
  qed
next
  assume a: "i < length all_lines \<and> is_definition_start (all_lines ! i)
        \<and> CHR ''('' \<in> set (all_lines ! i)"
  define c where
    "c = str_join NEWLINE (all_lines ! i # takeWhile inside_definition (drop (Suc i) all_lines))"
  obtain r where r: "c = all_lines ! i @ r"
    unfolding c_def using str_join_Cons by blast
  have g: "get_until_no_space all_lines (int i) = Inr c"
    using a get_until_no_space_eq [of i all_lines] by (simp add: c_def)
  have "is_definition_start c"
    using a r startswith_extend by (auto simp: is_definition_start_def)
  moreover have "CHR ''('' \<in> set c"
    using a r by simp
  ultimately obtain name where "get_function_name c = Inr (Some name)"
    using get_function_name_paren by blast
  with g show "\<exists>c name. get_until_no_space all_lines (int i) = Inr c
      \<and> get_function_name c = Inr (Some name)"
    by blast
qed

theorem get_function_name_partial_witness:
  "get_function_name ''def broken'' = Inl ValueError
   \<and> CHR ''('' \<in> set ''def ok(x):''
   \<and> (\<exists>c name. get_until_no_space [''import os'', ''def ok(x):'', ''    return x''] 1 = Inr c
          \<and> get_function_name c = Inr (Some name))"
proof -
  have 1: "get_function_name ''def broken'' = Inl ValueError"
    using get_function_name_partial [of "''def broken''"]
    by (simp add: is_definition_start_def DEF_PREFIXES_def startswith_def)
  have "get_function_name ''def ok(x):'' = Inr (Some ''ok'')"
    by (simp add: get_function_name_def DEF_PREFIXES_def startswith_def slice_def)
  then have 2: "CHR ''('' \<in> set ''def ok(x):''"
    using get_function_name_partial [of "''def ok(x):''" "Some ''ok''"]
    by (simp add: is_definition_start_def DEF_PREFIXES_def startswith_def)
  have 3: "\<exists>c name. get_until_no_space [''import os'', ''def ok(x):'', ''    return x''] (int 1) = Inr c
          \<and> get_function_name c = Inr (Some name)"
    using get_function_name_partial [of _ _ 1 "[''import os'', ''def ok(x):'', ''    return x'']"]
    by (simp add: is_definition_start_def DEF_PREFIXES_def startswith_def)
  from 1 2 3 show ?thesis by simp
qed

section \<open>The records of a file\<close>

lemma is_definition_start_nonempty: "is_definition_start l \<Longrightarrow> l \<noteq> []"
  by (auto simp: is_definition_start_def DEF_PREFIXES_def startswith_def)

lemma spec_code_field_start:
  "is_definition_start (all_lines ! i) \<Longrightarrow> is_definition_start (spec_code_field ws all_lines i)"
proof -
  assume a: "is_definition_start (all_lines ! i)"
  obtain r where "spec_code_field ws all_lines i = all_lines ! i @ r"
    unfolding spec_code_field_def using str_join_Cons by blast
  with a show ?thesis
    using startswith_extend by (auto simp: is_definition_start_def)
qed

lemma spec_code_field_nonempty:
  "is_definition_start (all_lines ! i) \<Longrightarrow> spec_code_field ws all_lines i \<noteq> []"
  using spec_code_field_start is_definition_start_nonempty by blast

text \<open>The scan of a file, in closed form: it raises \<^verbatim>\<open>ValueError\<close> when the code of
  some definition start holds no opening parenthesis, and otherwise returns one record for
  every definition start, in the order of the lines.\<close>

lemma get_functions_scan_eq:
  assumes "\<forall>(i, l) \<in> set ps. i < length all_lines \<and> l = all_lines ! i"
  shows "get_functions_scan path all_lines ps =
     (if list_all (\<lambda>(i, l). is_definition_start l
            \<longrightarrow> CHR ''('' \<in> set (spec_code_field space_or_tab all_lines i)) ps
      then Inr (map (\<lambda>(i, l). record_at path all_lines i) (filter (\<lambda>(i, l). is_definition_start l) ps))
      else Inl ValueError)"
  using assms
proof (induction ps)
  case Nil
  show ?case by simp
next
  case (Cons a ps)
  obtain i l where a: "a = (i, l)" by (cases a)
  from Cons.prems a have i: "i < length all_lines" and l: "l = all_lines ! i"
    by auto
  from Cons.prems have rest: "\<forall>(i, l) \<in> set ps. i < length all_lines \<and> l = all_lines ! i"
    by simp
  note IH = Cons.IH [OF rest]
  show ?case
  proof (cases "is_definition_start l")
    case False
    then have "find (startswith l) DEF_PREFIXES = None"
      using is_definition_start_find by (cases "find (startswith l) DEF_PREFIXES") auto
    with False IH show ?thesis
      by (simp add: a)
  next
    case True
    then obtain p where p: "find (startswith l) DEF_PREFIXES = Some p"
      using is_definition_start_find by blast
    have g: "get_until_no_space all_lines (int i) = Inr (spec_code_field space_or_tab all_lines i)"
      using get_until_no_space_spec [OF i] .
    have st: "is_definition_start (spec_code_field space_or_tab all_lines i)"
      using True l spec_code_field_start by blast
    show ?thesis
    proof (cases "CHR ''('' \<in> set (spec_code_field space_or_tab all_lines i)")
      case False
      then have "get_function_name (spec_code_field space_or_tab all_lines i) = Inl ValueError"
        using st get_function_name_no_paren by blast
      with False True show ?thesis
        by (simp add: a p g)
    next
      case paren: True
      then obtain name where
        n: "get_function_name (spec_code_field space_or_tab all_lines i) = Inr (Some name)"
        using st get_function_name_paren by blast
      with paren True IH show ?thesis
        by (simp add: a p g record_at_def)
    qed
  qed
qed

lemma enumerate_valid: "\<forall>(i, l) \<in> set (enumerate 0 xs). i < length xs \<and> l = xs ! i"
  by (auto simp: in_set_enumerate_eq)

lemma get_functions_eq:
  "get_functions path contents =
     (if definitions_have_paren contents
      then Inr (map (\<lambda>(i, l). record_at path (file_lines contents) i)
                 (filter (\<lambda>(i, l). is_definition_start l) (enumerate 0 (file_lines contents))))
      else Inl ValueError)"
proof -
  have "get_functions path contents =
      get_functions_scan path (file_lines contents) (enumerate 0 (file_lines contents))"
    by (simp add: get_functions_def file_lines_def Let_def)
  also have "\<dots> =
     (if list_all (\<lambda>(i, l). is_definition_start l
            \<longrightarrow> CHR ''('' \<in> set (spec_code_field space_or_tab (file_lines contents) i))
          (enumerate 0 (file_lines contents))
      then Inr (map (\<lambda>(i, l). record_at path (file_lines contents) i)
                 (filter (\<lambda>(i, l). is_definition_start l) (enumerate 0 (file_lines contents))))
      else Inl ValueError)"
    by (rule get_functions_scan_eq [OF enumerate_valid])
  finally show ?thesis
    unfolding definitions_have_paren_def .
qed

lemma filter_enumerate_length:
  "length (filter (\<lambda>(i, l). P l) (enumerate n xs)) = length (filter P xs)"
  by (induction xs arbitrary: n) auto

lemma count_definition_starts:
  "length (filter (\<lambda>(i, l). is_definition_start l) (enumerate 0 (file_lines contents)))
     = num_definitions contents"
  by (simp add: filter_enumerate_length num_definitions_def)

lemma get_functions_ok:
  assumes "definitions_have_paren contents"
  shows "\<exists>recs. get_functions path contents = Inr recs
           \<and> length recs = num_definitions contents
           \<and> (\<forall>r \<in> set recs. code r \<noteq> [])"
proof -
  let ?recs = "map (\<lambda>(i, l). record_at path (file_lines contents) i)
                 (filter (\<lambda>(i, l). is_definition_start l) (enumerate 0 (file_lines contents)))"
  have "get_functions path contents = Inr ?recs"
    using assms by (simp add: get_functions_eq)
  moreover have "length ?recs = num_definitions contents"
    using count_definition_starts by simp
  moreover have "\<forall>r \<in> set ?recs. code r \<noteq> []"
    using spec_code_field_nonempty
    by (auto simp: record_at_def in_set_enumerate_eq)
  ultimately show ?thesis by blast
qed

lemma all_functions_ok:
  assumes "\<forall>(path, contents) \<in> set code_files. definitions_have_paren contents"
  shows "\<exists>recs. all_functions code_files = Inr recs
           \<and> length recs = sum_list (map (\<lambda>(path, contents). num_definitions contents) code_files)
           \<and> (\<forall>r \<in> set recs. code r \<noteq> [])"
  using assms
proof (induction code_files)
  case Nil
  show ?case by simp
next
  case (Cons f code_files)
  obtain path contents where f: "f = (path, contents)" by (cases f)
  from Cons.prems f have "definitions_have_paren contents" by simp
  then obtain xs where xs: "get_functions path contents = Inr xs"
      "length xs = num_definitions contents" "\<forall>r \<in> set xs. code r \<noteq> []"
    using get_functions_ok by blast
  from Cons.prems have "\<forall>(path, contents) \<in> set code_files. definitions_have_paren contents"
    by simp
  then obtain ys where ys: "all_functions code_files = Inr ys"
      "length ys = sum_list (map (\<lambda>(path, contents). num_definitions contents) code_files)"
      "\<forall>r \<in> set ys. code r \<noteq> []"
    using Cons.IH by blast
  have "all_functions (f # code_files) = Inr (xs @ ys)"
    by (simp add: f xs(1) ys(1))
  moreover have "length (xs @ ys) =
      sum_list (map (\<lambda>(path, contents). num_definitions contents) (f # code_files))"
    by (simp add: f xs(2) ys(2))
  moreover have "\<forall>r \<in> set (xs @ ys). code r \<noteq> []"
    using xs(3) ys(3) by auto
  ultimately show ?case by blast
qed

text \<open>
  Claim C3, as the specification states it: a root with \<open>N\<close> matching files and \<open>F\<close>
  definitions gives exactly \<open>F\<close> records. The file below is a Python function definition
  whose first line ends in a backslash, so that its opening parenthesis stands on the next
  line. That line begins with the parenthesis and ends the code of the definition, the name
  lookup finds no parenthesis in it, and the extractor raises \<^verbatim>\<open>ValueError\<close> where the
  claim has it return one record.
\<close>

theorem extract_functions_count_counterexample:
  "fst (extract_functions_from_repo
         [(''pkg/mod.py'', ''def f '' @ [CHR 0x5C, NEWLINE] @ ''(x): return x'')])
     = Inl ValueError
   \<and> num_definitions (''def f '' @ [CHR 0x5C, NEWLINE] @ ''(x): return x'') = 1"
proof -
  have l: "file_lines (''def f '' @ [CHR 0x5C, NEWLINE] @ ''(x): return x'')
            = [''def f '' @ [CHR 0x5C], ''(x): return x'']"
    by (simp add: file_lines_def str_replace_def NEWLINE_def CARRIAGE_RETURN_def)
  have d: "is_definition_start (''def f '' @ [CHR 0x5C])" "\<not> is_definition_start ''(x): return x''"
    by (simp_all add: is_definition_start_def DEF_PREFIXES_def startswith_def)
  have "\<not> definitions_have_paren (''def f '' @ [CHR 0x5C, NEWLINE] @ ''(x): return x'')"
    unfolding definitions_have_paren_def l
    using d by (simp add: spec_code_field_def continuation_line_def space_or_tab_def)
  then have "get_functions ''pkg/mod.py'' (''def f '' @ [CHR 0x5C, NEWLINE] @ ''(x): return x'')
      = Inl ValueError"
    by (simp add: get_functions_eq)
  then have 1: "fst (extract_functions_from_repo
         [(''pkg/mod.py'', ''def f '' @ [CHR 0x5C, NEWLINE] @ ''(x): return x'')]) = Inl ValueError"
    by (simp add: extract_functions_from_repo_def)
  have 2: "num_definitions (''def f '' @ [CHR 0x5C, NEWLINE] @ ''(x): return x'') = 1"
    unfolding num_definitions_def l using d by simp
  from 1 2 show ?thesis by simp
qed

text \<open>
  Claim C3, amended: for every root whose files are such that the extracted code of each
  definition start holds an opening parenthesis, the extractor returns exactly \<open>F\<close>
  records, \<open>F\<close> the total number of definition starts in the files, each with a non-empty
  code field; they come as a list when there is at least one file, and as \<^verbatim>\<open>None\<close>
  (no record) when there is none.
\<close>

theorem extract_functions_count:
  assumes "\<forall>(path, contents) \<in> set code_files. definitions_have_paren contents"
  shows "\<exists>recs. fst (extract_functions_from_repo code_files)
                  = Inr (if code_files = [] then None else Some recs)
           \<and> length recs = sum_list (map (\<lambda>(path, contents). num_definitions contents) code_files)
           \<and> (\<forall>r \<in> set recs. code r \<noteq> [])"
proof -
  obtain recs where recs: "all_functions code_files = Inr recs"
      "length recs = sum_list (map (\<lambda>(path, contents). num_definitions contents) code_files)"
      "\<forall>r \<in> set recs. code r \<noteq> []"
    using all_functions_ok [OF assms] by blast
  have "fst (extract_functions_from_repo code_files)
          = Inr (if code_files = [] then None else Some recs)"
    by (simp add: extract_functions_from_repo_def Let_def recs(1))
  with recs(2,3) show ?thesis by blast
qed

theorem extract_functions_count_witness:
  "\<exists>recs. fst (extract_functions_from_repo
             [(''a.py'', ''def f(x):\<newline>    return x\<newline>async def g(): pass''),
              (''b.py'', ''x = 1'')]) = Inr (Some recs)
          \<and> length recs = 2"
proof -
  have l: "file_lines ''def f(x):\<newline>    return x\<newline>async def g(): pass''
             = [''def f(x):'', ''    return x'', ''async def g(): pass'']"
          "file_lines ''x = 1'' = [''x = 1'']"
    by (simp_all add: file_lines_def str_replace_def NEWLINE_def CARRIAGE_RETURN_def)
  have d: "is_definition_start ''def f(x):''" "\<not> is_definition_start ''    return x''"
      "is_definition_start ''async def g(): pass''" "\<not> is_definition_start ''x = 1''"
    by (simp_all add: is_definition_start_def DEF_PREFIXES_def startswith_def)
  have h: "\<forall>(path, contents) \<in> set
             [(''a.py'', ''def f(x):\<newline>    return x\<newline>async def g(): pass''),
              (''b.py'', ''x = 1'')]. definitions_have_paren contents"
    using d by (simp add: definitions_have_paren_def l spec_code_field_def
        continuation_line_def space_or_tab_def)
  have n: "num_definitions ''def f(x):\<newline>    return x\<newline>async def g(): pass'' = 2"
      "num_definitions ''x = 1'' = 0"
    using d by (simp_all add: num_definitions_def l)
  from extract_functions_count [OF h] n show ?thesis
    by auto
qed

section \<open>A root without files\<close>

text \<open>
  Claim C7. For a root in which the glob finds no file, which is the case of a missing root
  and of a root without \<^verbatim>\<open>.py\<close> files alike, the extractor prints a count of zero and a
  diagnostic message and returns \<^verbatim>\<open>None\<close>: a normal return, no exception, and nothing
  that tells the two cases apart.
\<close>

theorem extract_functions_no_files:
  "extract_functions_from_repo [] =
     (Inr None,
      [''Total number of .py files: 0'',
       ''Verify openai-python repo exists and code_root is set correctly.''])"
  by (simp add: extract_functions_from_repo_def digit_char_def)

section \<open>Inner definitions\<close>

lemma is_definition_start_cases:
  "is_definition_start l \<longleftrightarrow> (\<exists>r. l = ''def '' @ r) \<or> (\<exists>r. l = ''async def '' @ r)"
  by (simp add: is_definition_start_def DEF_PREFIXES_def startswith_iff)

lemma continuation_not_start: "continuation_line space_or_tab l \<Longrightarrow> \<not> is_definition_start l"
  unfolding is_definition_start_cases
  by (auto simp: continuation_line_def space_or_tab_def)

text \<open>The code field of line \<open>i\<close> is made of line \<open>i\<close> and the lines of the run after it.\<close>

lemma spec_code_field_lines:
  "i < length all_lines \<Longrightarrow>
   spec_code_field ws all_lines i =
     str_join NEWLINE
       (take (Suc (length (takeWhile (continuation_line ws) (drop (Suc i) all_lines))))
          (drop i all_lines))"
proof -
  assume i: "i < length all_lines"
  let ?run = "takeWhile (continuation_line ws) (drop (Suc i) all_lines)"
  have "drop i all_lines = all_lines ! i # drop (Suc i) all_lines"
    using i by (simp add: Cons_nth_drop_Suc)
  then have "take (Suc (length ?run)) (drop i all_lines)
      = all_lines ! i # take (length ?run) (drop (Suc i) all_lines)"
    by simp
  also have "take (length ?run) (drop (Suc i) all_lines) = ?run"
    by (simp add: takeWhile_eq_take [symmetric])
  finally show ?thesis
    by (simp add: spec_code_field_def)
qed

lemma start_not_in_code_field:
  assumes "i < j" and "j < length all_lines" and "is_definition_start (all_lines ! j)"
  shows "\<not> in_code_field all_lines i j"
proof
  define xs where "xs = drop (Suc i) all_lines"
  define run where "run = takeWhile (continuation_line space_or_tab) xs"
  define k where "k = j - Suc i"
  assume "in_code_field all_lines i j"
  then have "j \<le> i + length run"
    by (simp add: in_code_field_def run_def xs_def)
  with assms(1) have k: "k < length run"
    by (simp add: k_def)
  then have "run ! k \<in> set run"
    by (rule nth_mem)
  then have c: "continuation_line space_or_tab (run ! k)"
    unfolding run_def by (rule set_takeWhileD [THEN conjunct2])
  have "run ! k = xs ! k"
    using k unfolding run_def by (rule takeWhile_nth)
  also have "xs ! k = all_lines ! (Suc i + k)"
    unfolding xs_def using assms(1,2) by (intro nth_drop) (simp add: k_def)
  also have "Suc i + k = j"
    using assms(1) by (simp add: k_def)
  finally have "run ! k = all_lines ! j" .
  with c have "continuation_line space_or_tab (all_lines ! j)"
    by (simp only:)
  then have "\<not> is_definition_start (all_lines ! j)"
    by (rule continuation_not_start)
  with assms(3) show False
    by (rule notE [rotated])
qed

lemma unbroken_in_code_field:
  assumes "i < j" and "j < length all_lines"
    and "\<forall>m. i < m \<and> m \<le> j \<longrightarrow> continuation_line space_or_tab (all_lines ! m)"
  shows "in_code_field all_lines i j"
proof -
  let ?xs = "drop (Suc i) all_lines"
  have "j - i \<le> length (takeWhile (continuation_line space_or_tab) ?xs)"
  proof (rule length_takeWhile_less_P_nth)
    fix k assume "k < j - i"
    then show "continuation_line space_or_tab (?xs ! k)"
      using assms by simp
  next
    show "j - i \<le> length ?xs"
      using assms(1,2) by simp
  qed
  then show ?thesis
    using assms(1) by (simp add: in_code_field_def)
qed

text \<open>
  Claim C6, as the specification states it: an inner definition gets a record of its own and
  its lines stand in the code field of the enclosing definition. In the first file the inner
  definition \<^verbatim>\<open>fmt\<close> stands in the code of \<^verbatim>\<open>logfmt\<close> and the extractor returns the one
  record of \<^verbatim>\<open>logfmt\<close>. In the second file a comment at column 0 ends the code of
  \<^verbatim>\<open>outer\<close>: the inner definition has no record and its lines are in no code field.
\<close>

theorem inner_definition_counterexample:
  "get_functions ''util.py''
     ''def logfmt(props):\<newline>    def fmt(key, val):\<newline>        return key\<newline>    return fmt''
     = Inr [\<lparr>code = ''def logfmt(props):\<newline>    def fmt(key, val):\<newline>        return key\<newline>    return fmt'',
             function_name = Some ''logfmt'', filepath = ''util.py''\<rparr>]
   \<and> get_functions ''m.py''
     ''def outer():\<newline>    x = 1\<newline># note\<newline>    def inner():\<newline>        return x\<newline>    return inner''
     = Inr [\<lparr>code = ''def outer():\<newline>    x = 1'',
             function_name = Some ''outer'', filepath = ''m.py''\<rparr>]"
proof -
  have l1: "file_lines ''def logfmt(props):\<newline>    def fmt(key, val):\<newline>        return key\<newline>    return fmt''
      = [''def logfmt(props):'', ''    def fmt(key, val):'', ''        return key'', ''    return fmt'']"
    by (simp add: file_lines_def str_replace_def NEWLINE_def CARRIAGE_RETURN_def)
  have l2: "file_lines ''def outer():\<newline>    x = 1\<newline># note\<newline>    def inner():\<newline>        return x\<newline>    return inner''
      = [''def outer():'', ''    x = 1'', ''# note'', ''    def inner():'', ''        return x'', ''    return inner'']"
    by (simp add: file_lines_def str_replace_def NEWLINE_def CARRIAGE_RETURN_def)
  have d: "is_definition_start ''def logfmt(props):''" "\<not> is_definition_start ''    def fmt(key, val):''"
      "\<not> is_definition_start ''        return key''" "\<not> is_definition_start ''    return fmt''"
      "is_definition_start ''def outer():''" "\<not> is_definition_start ''    x = 1''"
      "\<not> is_definition_start ''# note''" "\<not> is_definition_start ''    def inner():''"
      "\<not> is_definition_start ''        return x''" "\<not> is_definition_start ''    return inner''"
    by (simp_all add: is_definition_start_def DEF_PREFIXES_def startswith_def)
  have 1: "get_functions ''util.py''
     ''def logfmt(props):\<newline>    def fmt(key, val):\<newline>        return key\<newline>    return fmt''
     = Inr [\<lparr>code = ''def logfmt(props):\<newline>    def fmt(key, val):\<newline>        return key\<newline>    return fmt'',
             function_name = Some ''logfmt'', filepath = ''util.py''\<rparr>]"
    unfolding get_functions_eq definitions_have_paren_def l1
    using d by (simp add: record_at_def spec_code_field_def continuation_line_def
        space_or_tab_def NEWLINE_def get_function_name_def DEF_PREFIXES_def startswith_def slice_def)
  have 2: "get_functions ''m.py''
     ''def outer():\<newline>    x = 1\<newline># note\<newline>    def inner():\<newline>        return x\<newline>    return inner''
     = Inr [\<lparr>code = ''def outer():\<newline>    x = 1'',
             function_name = Some ''outer'', filepath = ''m.py''\<rparr>]"
    unfolding get_functions_eq definitions_have_paren_def l2
    using d by (simp add: record_at_def spec_code_field_def continuation_line_def
        space_or_tab_def NEWLINE_def get_function_name_def DEF_PREFIXES_def startswith_def slice_def)
  from 1 2 show ?thesis by simp
qed

text \<open>
  Claim C6, amended. Unless a name lookup raises, the extractor returns one record for every
  definition start of the file, the lines that begin with a prefix at column 0, each with
  the code field of its line, and no other record. A line that begins with a space or a
  tab, as the start line of an inner definition does, is no definition start and gets no
  record. A definition start is never one of the lines of the code field of an earlier line.
  A later line is one of the lines of the code field of line \<open>i\<close> when every line after \<open>i\<close>
  up to it is empty or begins with a space, a tab or a closing parenthesis.
\<close>

theorem inner_definition_records:
  "get_functions path contents =
     (if definitions_have_paren contents
      then Inr (map (\<lambda>(i, l). record_at path (file_lines contents) i)
                 (filter (\<lambda>(i, l). is_definition_start l) (enumerate 0 (file_lines contents))))
      else Inl ValueError)
   \<and> (l \<noteq> [] \<and> hd l \<in> space_or_tab \<longrightarrow> \<not> is_definition_start l)
   \<and> (i < j \<and> j < length all_lines \<and> is_definition_start (all_lines ! j)
        \<longrightarrow> \<not> in_code_field all_lines i j)
   \<and> (i < j \<and> j < length all_lines
        \<and> (\<forall>m. i < m \<and> m \<le> j \<longrightarrow> continuation_line space_or_tab (all_lines ! m))
        \<longrightarrow> in_code_field all_lines i j)"
proof (intro conjI impI)
  show "get_functions path contents =
     (if definitions_have_paren contents
      then Inr (map (\<lambda>(i, l). record_at path (file_lines contents) i)
                 (filter (\<lambda>(i, l). is_definition_start l) (enumerate 0 (file_lines contents))))
      else Inl ValueError)"
    by (rule get_functions_eq)
next
  assume "l \<noteq> [] \<and> hd l \<in> space_or_tab"
  then have "continuation_line space_or_tab l"
    by (cases l) (auto simp: continuation_line_def)
  then show "\<not> is_definition_start l"
    by (rule continuation_not_start)
next
  assume "i < j \<and> j < length all_lines \<and> is_definition_start (all_lines ! j)"
  then show "\<not> in_code_field all_lines i j"
    using start_not_in_code_field by blast
next
  assume "i < j \<and> j < length all_lines
        \<and> (\<forall>m. i < m \<and> m \<le> j \<longrightarrow> continuation_line space_or_tab (all_lines ! m))"
  then show "in_code_field all_lines i j"
    using unbroken_in_code_field by blast
qed

theorem inner_definition_records_witness:
  "get_functions ''a.py'' ''def f():\<newline>    def g(): pass''
     = Inr [\<lparr>code = ''def f():\<newline>    def g(): pass'', function_name = Some ''f'',
             filepath = ''a.py''\<rparr>]
   \<and> \<not> is_definition_start ''    def g(): pass''
   \<and> \<not> in_code_field [''def f():'', ''    return 1'', ''def g():'', ''    return 2''] 0 2
   \<and> in_code_field [''def f():'', ''    def g(): pass''] 0 1"
proof -
  have l: "file_lines ''def f():\<newline>    def g(): pass'' = [''def f():'', ''    def g(): pass'']"
    by (simp add: file_lines_def str_replace_def NEWLINE_def CARRIAGE_RETURN_def)
  have d: "is_definition_start ''def f():''" "is_definition_start ''def g():''"
    by (simp_all add: is_definition_start_def DEF_PREFIXES_def startswith_def)
  have 2: "\<not> is_definition_start ''    def g(): pass''"
    using inner_definition_records [of _ _ "''    def g(): pass''"]
    by (simp add: space_or_tab_def)
  have p: "definitions_have_paren ''def f():\<newline>    def g(): pass''"
    unfolding definitions_have_paren_def l
    using d 2 by (simp add: spec_code_field_def continuation_line_def space_or_tab_def)
  have 1: "get_functions ''a.py'' ''def f():\<newline>    def g(): pass''
     = Inr [\<lparr>code = ''def f():\<newline>    def g(): pass'', function_name = Some ''f'',
             filepath = ''a.py''\<rparr>]"
    using inner_definition_records [of "''a.py''" "''def f():\<newline>    def g(): pass''"] p d 2
    by (simp add: l record_at_def spec_code_field_def continuation_line_def space_or_tab_def
        NEWLINE_def get_function_name_def DEF_PREFIXES_def startswith_def slice_def)
  have 3: "\<not> in_code_field [''def f():'', ''    return 1'', ''def g():'', ''    return 2''] 0 2"
    using d inner_definition_records
      [of _ _ _ 0 2 "[''def f():'', ''    return 1'', ''def g():'', ''    return 2'']"]
    by simp
  have "\<forall>m. 0 < m \<and> m \<le> Suc 0 \<longrightarrow> continuation_line space_or_tab
      ([''def f():'', ''    def g(): pass''] ! m)"
  proof (intro allI impI)
    fix m :: nat assume "0 < m \<and> m \<le> Suc 0"
    then have "m = Suc 0" by simp
    then show "continuation_line space_or_tab ([''def f():'', ''    def g(): pass''] ! m)"
      by (simp add: continuation_line_def space_or_tab_def)
  qed
  then have 4: "in_code_field [''def f():'', ''    def g(): pass''] 0 1"
    using inner_definition_records [of _ _ _ 0 1 "[''def f():'', ''    def g(): pass'']"]
    by simp
  from 1 2 3 4 show ?thesis by simp
qed

section \<open>Cosine similarity\<close>

lemma dot_Cons: "dot (x # a) (y # b) = x * y + dot a b"
  by (simp add: dot_def)

lemma dot_Nil: "dot [] b = 0" "dot a [] = 0"
  by (simp_all add: dot_def)

lemma dot_commute: "dot a b = dot b a"
proof (induction a arbitrary: b)
  case Nil
  show ?case by (simp add: dot_Nil)
next
  case (Cons x a)
  show ?case
  proof (cases b)
    case Nil
    then show ?thesis by (simp add: dot_Nil)
  next
    case (Cons y b')
    then show ?thesis
      using Cons.IH [of b'] by (simp add: dot_Cons mult.commute)
  qed
qed

lemma dot_self_nonneg: "0 \<le> dot a a"
  by (induction a) (simp_all add: dot_Nil dot_Cons)

lemma dot_self_pos: "\<exists>x \<in> set a. x \<noteq> 0 \<Longrightarrow> 0 < dot a a"
proof (induction a)
  case Nil
  then show ?case by simp
next
  case (Cons x a)
  show ?case
  proof (cases "x = 0")
    case True
    with Cons show ?thesis by (simp add: dot_Cons)
  next
    case False
    then have "0 < x * x"
      by (simp add: zero_less_mult_iff) arith
    with dot_self_nonneg [of a] show ?thesis
      by (simp add: dot_Cons add_pos_nonneg)
  qed
qed

lemma magnitude_square: "magnitude a * magnitude a = dot a a"
  using dot_self_nonneg [of a] by (simp add: magnitude_def)

text \<open>
  Claim C9. For every vector \<open>a\<close> with a non-zero component the cosine similarity of \<open>a\<close>
  with itself is 1 (exactly, in real arithmetic), and for vectors \<open>a\<close> and \<open>b\<close> of equal
  dimension the similarity of \<open>a\<close> and \<open>b\<close> is that of \<open>b\<close> and \<open>a\<close>.
\<close>

theorem cosine_similarity_self_symmetric:
  "((\<exists>x \<in> set a. x \<noteq> 0) \<longrightarrow> cosine_similarity a a = Inr 1)
   \<and> (length a = length b \<longrightarrow> cosine_similarity a b = cosine_similarity b a)"
proof (intro conjI impI)
  assume nz: "\<exists>x \<in> set a. x \<noteq> 0"
  then have pos: "0 < dot a a"
    by (rule dot_self_pos)
  from nz have "a \<noteq> []" by auto
  with pos show "cosine_similarity a a = Inr 1"
    by (simp add: cosine_similarity_def magnitude_square)
next
  assume "length a = length b"
  then show "cosine_similarity a b = cosine_similarity b a"
    by (simp add: cosine_similarity_def dot_commute [of a b] mult.commute)
qed

theorem cosine_similarity_self_symmetric_witness:
  "cosine_similarity [3, 4] [3, 4] = Inr 1
   \<and> cosine_similarity [1, 2] [3, 4] = cosine_similarity [3, 4] [1, 2]"
  using cosine_similarity_self_symmetric [of "[3, 4]" "[3, 4]"]
    cosine_similarity_self_symmetric [of "[1, 2]" "[3, 4]"]
  by simp

section \<open>The search\<close>

lemma series_apply_Inr: "series_apply f xs = Inr ys \<Longrightarrow> map f xs = map Inr ys"
  by (induction xs arbitrary: ys) (auto split: sum.splits)

lemma series_apply_ok:
  "\<forall>x \<in> set xs. \<exists>y. f x = Inr y \<Longrightarrow> \<exists>ys. series_apply f xs = Inr ys"
  by (induction xs) auto

lemma slice_to_nat: "slice_to xs (int k) = take k xs"
  by (simp add: slice_to_def)

lemma scored_pairs:
  assumes "map f xs = map Inr ss" and "(s, x) \<in> set (zip ss xs)"
  shows "f x = Inr s"
proof -
  from assms(2) obtain i where i: "i < length ss" "i < length xs" "ss ! i = s" "xs ! i = x"
    by (auto simp: in_set_zip)
  have "map f xs ! i = map Inr ss ! i"
    using assms(1) by simp
  with i show ?thesis by simp
qed

lemma series_apply_fail:
  assumes "\<exists>x \<in> set xs. \<forall>y. f x \<noteq> Inr y"
  shows "\<exists>err. series_apply f xs = Inl err"
proof (cases "series_apply f xs")
  case (Inl err)
  then show ?thesis by blast
next
  case (Inr ys)
  then have m: "map f xs = map Inr ys"
    by (rule series_apply_Inr)
  from assms obtain x where x: "x \<in> set xs" "\<forall>y. f x \<noteq> Inr y"
    by blast
  then have "f x \<in> set (map f xs)"
    by simp
  with m have "f x \<in> set (map Inr ys)"
    by simp
  with x(2) show ?thesis
    by auto
qed

lemma sorts_by_score_insertion: "sorts_by_score insertion_sort_values"
proof -
  have up: "sorted_wrt (\<lambda>a b. fst a \<le> fst b) (sort_key fst xs)" for xs :: "(real \<times> 'a) list"
  proof -
    have "sorted (map fst (sort_key fst xs))"
      by (rule sorted_sort_key)
    then show ?thesis
      by (simp add: sorted_wrt_map)
  qed
  have down: "sorted_wrt (\<lambda>a b. fst b \<le> fst a) (rev (sort_key fst (rev xs)))"
    for xs :: "(real \<times> 'a) list"
    using up [of "rev xs"] by (simp add: sorted_wrt_rev)
  show ?thesis
    using up down by (simp add: sorts_by_score_def insertion_sort_values_def)
qed

text \<open>What a search that gets its embedding and all its scores does: it assigns the scores
  to the caller's data frame and returns the first \<open>n\<close> rows of the frame sorted with
  \<^verbatim>\<open>ascending=False\<close>.\<close>

lemma search_functions_Inr:
  assumes "get_embedding q = Inr e"
    and "series_apply (\<lambda>x. cosine_similarity (code_embedding (snd x)) e) (rows df) = Inr scores"
  shows "search_functions get_embedding srt df q n pprint n_lines =
     (Inr (\<lparr>rows = map snd (slice_to (srt False (zip scores (rows df))) n),
            similarities = Some (map fst (slice_to (srt False (zip scores (rows df))) n))\<rparr>,
           (if pprint then
              map (\<lambda>(score, label, r).
                     \<lparr>shown_filepath = filepath r,
                      shown_function_name = function_name r,
                      shown_score = score,
                      shown_code = slice_to (str_split NEWLINE (code r)) n_lines\<rparr>)
                (slice_to (srt False (zip scores (rows df))) n)
            else [])),
      df\<lparr>similarities := Some scores\<rparr>)"
  using assms by (simp add: search_functions_def Let_def)

lemma search_functions_embedding_fails:
  "get_embedding q = Inl err \<Longrightarrow>
   fst (search_functions get_embedding srt df q n pprint n_lines) = Inl err"
  by (simp add: search_functions_def)

lemma search_functions_similarity_fails:
  assumes "get_embedding q = Inr e"
    and "\<exists>x \<in> set (rows df). \<forall>s. cosine_similarity (code_embedding (snd x)) e \<noteq> Inr s"
  shows "\<exists>err. fst (search_functions get_embedding srt df q n pprint n_lines) = Inl err"
proof -
  obtain err where
    "series_apply (\<lambda>x. cosine_similarity (code_embedding (snd x)) e) (rows df) = Inl err"
    using series_apply_fail [of "rows df" "\<lambda>x. cosine_similarity (code_embedding (snd x)) e"]
      assms(2) by blast
  then show ?thesis
    using assms(1) by (simp add: search_functions_def)
qed

text \<open>
  Claim C1, as the specification states it: for every corpus and every query the search
  with \<open>n = k\<close> returns \<open>k\<close> results when the corpus has at least \<open>k\<close> records. The search
  returns no result when the embedder fails on the query, and none when the cosine
  similarity of some record with the query is undefined: below, a corpus of two records, one
  of them with a zero vector as its embedding, searched with \<open>n = 1\<close>.
\<close>

theorem search_functions_top_n_counterexample:
  "fst (search_functions (\<lambda>q. Inr [1, 0]) insertion_sort_values
         \<lparr>rows =
            [(0, \<lparr>code = ''def add(a,b): return a+b'', function_name = Some ''add'',
                  filepath = ''calc.py'', code_embedding = [0, 0]\<rparr>),
             (1, \<lparr>code = ''def sub(a,b): return a-b'', function_name = Some ''sub'',
                  filepath = ''calc.py'', code_embedding = [1, 0]\<rparr>)],
          similarities = None\<rparr>
         ''subtract two numbers'' 1 True 7)
     = Inl ZeroDivisionError
   \<and> fst (search_functions (\<lambda>q. Inl EmbeddingError) insertion_sort_values
         \<lparr>rows =
            [(0, \<lparr>code = ''def add(a,b): return a+b'', function_name = Some ''add'',
                  filepath = ''calc.py'', code_embedding = [0, 1]\<rparr>),
             (1, \<lparr>code = ''def sub(a,b): return a-b'', function_name = Some ''sub'',
                  filepath = ''calc.py'', code_embedding = [1, 0]\<rparr>)],
          similarities = None\<rparr>
         ''subtract two numbers'' 1 True 7)
     = Inl EmbeddingError"
  by (simp add: search_functions_def cosine_similarity_def magnitude_def dot_def)

text \<open>
  Claim C1, amended. Let the sort of pandas sort as its flag says. For every corpus and
  every query such that the embedder returns an embedding of the query and the cosine
  similarity of every record with it is defined, \<open>search_functions\<close> with \<open>n = k\<close> returns
  exactly \<open>k\<close> rows of the corpus if the corpus has at least \<open>k\<close> rows and all rows of the
  corpus if it has fewer; the scores of the returned rows are their cosine similarities with
  the query, in non-increasing order, and no row that is left out has a higher score than a
  returned row. When the embedder fails, or the similarity of some record is undefined,
  the search raises and returns nothing.
\<close>

theorem search_functions_top_n:
  assumes "sorts_by_score srt"
  shows "(get_embedding q = Inr e
          \<and> (\<forall>x \<in> set (rows df). \<exists>s. cosine_similarity (code_embedding (snd x)) e = Inr s)
          \<longrightarrow> (\<exists>res printed df' ss.
                search_functions get_embedding srt df q (int k) pprint n_lines
                  = (Inr (res, printed), df')
                \<and> length (rows res) = min k (length (rows df))
                \<and> (length (rows df) \<le> k \<longrightarrow> mset (rows res) = mset (rows df))
                \<and> mset (rows res) \<subseteq># mset (rows df)
                \<and> similarities res = Some ss
                \<and> map (\<lambda>x. cosine_similarity (code_embedding (snd x)) e) (rows res) = map Inr ss
                \<and> sorted_wrt (\<lambda>a b. b \<le> a) ss
                \<and> (\<forall>x \<in># mset (rows df) - mset (rows res). \<forall>s' \<in> set ss. \<forall>s.
                      cosine_similarity (code_embedding (snd x)) e = Inr s \<longrightarrow> s \<le> s')))
         \<and> (get_embedding q = Inl err
              \<longrightarrow> fst (search_functions get_embedding srt df q (int k) pprint n_lines) = Inl err)
         \<and> (get_embedding q = Inr e
              \<and> (\<exists>x \<in> set (rows df). \<forall>s. cosine_similarity (code_embedding (snd x)) e \<noteq> Inr s)
              \<longrightarrow> (\<exists>err'. fst (search_functions get_embedding srt df q (int k) pprint n_lines)
                            = Inl err'))"
proof (intro conjI impI)
  assume "get_embedding q = Inl err"
  then show "fst (search_functions get_embedding srt df q (int k) pprint n_lines) = Inl err"
    by (rule search_functions_embedding_fails)
next
  assume "get_embedding q = Inr e
      \<and> (\<exists>x \<in> set (rows df). \<forall>s. cosine_similarity (code_embedding (snd x)) e \<noteq> Inr s)"
  then show "\<exists>err'. fst (search_functions get_embedding srt df q (int k) pprint n_lines) = Inl err'"
    using search_functions_similarity_fails by blast
next
  assume a: "get_embedding q = Inr e
      \<and> (\<forall>x \<in> set (rows df). \<exists>s. cosine_similarity (code_embedding (snd x)) e = Inr s)"
  let ?f = "\<lambda>x. cosine_similarity (code_embedding (snd x)) e"
  obtain scores where sc: "series_apply ?f (rows df) = Inr scores"
    using series_apply_ok [of "rows df" ?f] a by blast
  then have m: "map ?f (rows df) = map Inr scores"
    by (rule series_apply_Inr)
  then have len: "length scores = length (rows df)"
    using map_eq_imp_length_eq by fastforce
  let ?zs = "zip scores (rows df)"
  let ?ranked = "srt False ?zs"
  let ?top = "take k ?ranked"
  let ?rest = "drop k ?ranked"
  have "mset (srt False ?zs) = mset ?zs
      \<and> sorted_wrt (\<lambda>a b. if False then fst a \<le> fst b else fst b \<le> fst a) (srt False ?zs)"
    using assms unfolding sorts_by_score_def by blast
  then have perm: "mset ?ranked = mset ?zs"
    and desc: "sorted_wrt (\<lambda>a b. fst b \<le> fst a) ?ranked"
    by simp_all
  have rlen: "length ?ranked = length (rows df)"
    using mset_eq_length [OF perm] len by simp
  have rset: "set ?ranked = set ?zs"
    using mset_eq_setD [OF perm] .
  have rows_perm: "mset (map snd ?ranked) = mset (rows df)"
  proof -
    have "mset (map snd ?ranked) = image_mset snd (mset ?zs)"
      using perm by simp
    also have "\<dots> = mset (map snd ?zs)"
      by simp
    also have "map snd ?zs = rows df"
      using len by (simp add: map_snd_zip)
    finally show ?thesis .
  qed
  have split: "mset (rows df) = mset (map snd ?top) + mset (map snd ?rest)"
  proof -
    have "map snd ?ranked = map snd ?top @ map snd ?rest"
      by (simp add: take_map [symmetric] drop_map [symmetric])
    then have "mset (map snd ?ranked) = mset (map snd ?top) + mset (map snd ?rest)"
      by (metis mset_append)
    with rows_perm show ?thesis by simp
  qed
  have scored: "?f (snd p) = Inr (fst p)" if "p \<in> set ?ranked" for p
  proof -
    from that rset have "(fst p, snd p) \<in> set ?zs" by simp
    then show ?thesis
      using scored_pairs [OF m] by blast
  qed
  have run: "search_functions get_embedding srt df q (int k) pprint n_lines =
     (Inr (\<lparr>rows = map snd ?top, similarities = Some (map fst ?top)\<rparr>,
           (if pprint then
              map (\<lambda>(score, label, r).
                     \<lparr>shown_filepath = filepath r,
                      shown_function_name = function_name r,
                      shown_score = score,
                      shown_code = slice_to (str_split NEWLINE (code r)) n_lines\<rparr>) ?top
            else [])),
      df\<lparr>similarities := Some scores\<rparr>)"
    using search_functions_Inr [of get_embedding q e df scores srt "int k" pprint n_lines] a sc
    by (simp add: slice_to_nat)
  have 1: "length (map snd ?top) = min k (length (rows df))"
    using rlen by simp
  have 2: "length (rows df) \<le> k \<longrightarrow> mset (map snd ?top) = mset (rows df)"
  proof
    assume "length (rows df) \<le> k"
    then have "?top = ?ranked"
      using rlen by simp
    with rows_perm show "mset (map snd ?top) = mset (rows df)"
      by simp
  qed
  have 3: "mset (map snd ?top) \<subseteq># mset (rows df)"
    using split by simp
  have 4: "map ?f (map snd ?top) = map Inr (map fst ?top)"
  proof -
    have "?f (snd p) = Inr (fst p)" if "p \<in> set ?top" for p
      using that scored in_set_takeD by fast
    then show ?thesis by simp
  qed
  have 5: "sorted_wrt (\<lambda>a b. b \<le> a) (map fst ?top)"
    using sorted_wrt_take [OF desc, of k] by (simp add: sorted_wrt_map)
  have 6: "\<forall>x \<in># mset (rows df) - mset (map snd ?top). \<forall>s' \<in> set (map fst ?top). \<forall>s.
             ?f x = Inr s \<longrightarrow> s \<le> s'"
  proof (intro ballI allI impI)
    fix x s' s
    assume x: "x \<in># mset (rows df) - mset (map snd ?top)"
      and s': "s' \<in> set (map fst ?top)" and s: "?f x = Inr s"
    from x split have "x \<in> set (map snd ?rest)"
      by simp
    then obtain b where b: "b \<in> set ?rest" "snd b = x"
      by auto
    from s' obtain t where t: "t \<in> set ?top" "fst t = s'"
      by auto
    have "sorted_wrt (\<lambda>a b. fst b \<le> fst a) (?top @ ?rest)"
      using desc by simp
    then have "fst b \<le> fst t"
      using b(1) t(1) unfolding sorted_wrt_append by blast
    moreover have "?f (snd b) = Inr (fst b)"
      using b(1) scored in_set_dropD by fast
    ultimately show "s \<le> s'"
      using b(2) t(2) s by simp
  qed
  show "\<exists>res printed df' ss.
          search_functions get_embedding srt df q (int k) pprint n_lines = (Inr (res, printed), df')
          \<and> length (rows res) = min k (length (rows df))
          \<and> (length (rows df) \<le> k \<longrightarrow> mset (rows res) = mset (rows df))
          \<and> mset (rows res) \<subseteq># mset (rows df)
          \<and> similarities res = Some ss
          \<and> map ?f (rows res) = map Inr ss
          \<and> sorted_wrt (\<lambda>a b. b \<le> a) ss
          \<and> (\<forall>x \<in># mset (rows df) - mset (rows res). \<forall>s' \<in> set ss. \<forall>s.
                ?f x = Inr s \<longrightarrow> s \<le> s')"
    using run 1 2 3 4 5 6
    by (intro exI [of _ "\<lparr>rows = map snd ?top, similarities = Some (map fst ?top)\<rparr>"]
        exI [of _ "map fst ?top"] exI) simp
qed

theorem search_functions_top_n_witness:
  "(\<exists>res printed df' ss.
     search_functions (\<lambda>q. Inr [1, 0]) insertion_sort_values
       \<lparr>rows =
          [(0, \<lparr>code = ''def add(a,b): return a+b'', function_name = Some ''add'',
                filepath = ''calc.py'', code_embedding = [0, 1]\<rparr>),
           (1, \<lparr>code = ''def sub(a,b): return a-b'', function_name = Some ''sub'',
                filepath = ''calc.py'', code_embedding = [1, 0]\<rparr>),
           (2, \<lparr>code = ''def neg(a): return -a'', function_name = Some ''neg'',
                filepath = ''calc.py'', code_embedding = [- 1, 0]\<rparr>)],
        similarities = None\<rparr>
       ''subtract two numbers'' 2 True 7 = (Inr (res, printed), df')
     \<and> length (rows res) = 2
     \<and> similarities res = Some ss
     \<and> sorted_wrt (\<lambda>a b. b \<le> a) ss)
   \<and> fst (search_functions (\<lambda>q. Inl EmbeddingError) insertion_sort_values
           \<lparr>rows = [], similarities = None\<rparr> ''subtract two numbers'' 2 True 7)
       = Inl EmbeddingError
   \<and> (\<exists>err'. fst (search_functions (\<lambda>q. Inr [1, 0]) insertion_sort_values
           \<lparr>rows = [(0, \<lparr>code = ''def add(a,b): return a+b'', function_name = Some ''add'',
                          filepath = ''calc.py'', code_embedding = [0, 0]\<rparr>)],
            similarities = None\<rparr> ''subtract two numbers'' 2 True 7) = Inl err')"
proof -
  let ?df = "\<lparr>rows =
          [(0::nat, \<lparr>code = ''def add(a,b): return a+b'', function_name = Some ''add'',
                filepath = ''calc.py'', code_embedding = [0, 1]\<rparr>),
           (1, \<lparr>code = ''def sub(a,b): return a-b'', function_name = Some ''sub'',
                filepath = ''calc.py'', code_embedding = [1, 0]\<rparr>),
           (2, \<lparr>code = ''def neg(a): return -a'', function_name = Some ''neg'',
                filepath = ''calc.py'', code_embedding = [- 1, 0]\<rparr>)],
        similarities = None\<rparr>"
  let ?zero = "\<lparr>rows = [(0::nat, \<lparr>code = ''def add(a,b): return a+b'', function_name = Some ''add'',
                          filepath = ''calc.py'', code_embedding = [0, 0]\<rparr>)],
            similarities = None\<rparr>"
  have h: "\<forall>x \<in> set (rows ?df). \<exists>s. cosine_similarity (code_embedding (snd x)) [1, 0] = Inr s"
    by (simp add: cosine_similarity_def magnitude_def dot_def)
  have "\<exists>res printed df' ss.
           search_functions (\<lambda>q. Inr [1, 0]) insertion_sort_values ?df
             ''subtract two numbers'' (int 2) True 7 = (Inr (res, printed), df')
           \<and> length (rows res) = min 2 (length (rows ?df))
           \<and> (length (rows ?df) \<le> 2 \<longrightarrow> mset (rows res) = mset (rows ?df))
           \<and> mset (rows res) \<subseteq># mset (rows ?df)
           \<and> similarities res = Some ss
           \<and> map (\<lambda>x. cosine_similarity (code_embedding (snd x)) [1, 0]) (rows res) = map Inr ss
           \<and> sorted_wrt (\<lambda>a b. b \<le> a) ss
           \<and> (\<forall>x \<in># mset (rows ?df) - mset (rows res). \<forall>s' \<in> set ss. \<forall>s.
                 cosine_similarity (code_embedding (snd x)) [1, 0] = Inr s \<longrightarrow> s \<le> s')"
    using search_functions_top_n [OF sorts_by_score_insertion,
        where get_embedding = "\<lambda>q. Inr [1, 0]" and q = "''subtract two numbers''"
          and e = "[1, 0]" and df = ?df and k = 2 and pprint = True and n_lines = 7] h
    by simp
  then obtain res printed df' ss where
    "search_functions (\<lambda>q. Inr [1, 0]) insertion_sort_values ?df
       ''subtract two numbers'' 2 True 7 = (Inr (res, printed), df')"
    "length (rows res) = 2" "similarities res = Some ss" "sorted_wrt (\<lambda>a b. b \<le> a) ss"
    by auto
  then have 1: "\<exists>res printed df' ss.
     search_functions (\<lambda>q. Inr [1, 0]) insertion_sort_values ?df
       ''subtract two numbers'' 2 True 7 = (Inr (res, printed), df')
     \<and> length (rows res) = 2 \<and> similarities res = Some ss \<and> sorted_wrt (\<lambda>a b. b \<le> a) ss"
    by blast
  have 2: "fst (search_functions (\<lambda>q. Inl EmbeddingError) insertion_sort_values
           \<lparr>rows = [], similarities = None\<rparr> ''subtract two numbers'' 2 True 7)
       = Inl EmbeddingError"
    using search_functions_top_n [OF sorts_by_score_insertion,
        where get_embedding = "\<lambda>q. Inl EmbeddingError" and q = "''subtract two numbers''"
          and df = "\<lparr>rows = [], similarities = None\<rparr>" and err = EmbeddingError
          and k = 2 and pprint = True and n_lines = 7]
    by simp
  have z: "\<exists>x \<in> set (rows ?zero). \<forall>s. cosine_similarity (code_embedding (snd x)) [1, 0] \<noteq> Inr s"
    by (simp add: cosine_similarity_def magnitude_def dot_def)
  have 3: "\<exists>err'. fst (search_functions (\<lambda>q. Inr [1, 0]) insertion_sort_values ?zero
             ''subtract two numbers'' 2 True 7) = Inl err'"
    using search_functions_top_n [OF sorts_by_score_insertion,
        where get_embedding = "\<lambda>q. Inr [1, 0]" and q = "''subtract two numbers''"
          and e = "[1, 0]" and df = ?zero and k = 2 and pprint = True and n_lines = 7] z
    by simp
  from 1 2 3 show ?thesis by blast
qed

section \<open>What a search leaves of the corpus\<close>

text \<open>
  Claim C8, as the specification states it: a search reads the corpus and changes neither
  a record nor the structure of the corpus. The corpus below has no column
  \<^verbatim>\<open>similarities\<close> before the search and has one after it: the assignment
  \<^verbatim>\<open>df['similarities'] = ...\<close> writes into the caller's data frame.
\<close>

theorem search_functions_corpus_counterexample:
  "snd (search_functions (\<lambda>q. Inr [1, 0]) insertion_sort_values
         \<lparr>rows = [(0, \<lparr>code = ''def sub(a,b): return a-b'', function_name = Some ''sub'',
                        filepath = ''calc.py'', code_embedding = [1, 0]\<rparr>)],
          similarities = None\<rparr>
         ''subtract two numbers'' 3 True 7)
     = \<lparr>rows = [(0, \<lparr>code = ''def sub(a,b): return a-b'', function_name = Some ''sub'',
                       filepath = ''calc.py'', code_embedding = [1, 0]\<rparr>)],
         similarities = Some [1]\<rparr>
   \<and> snd (search_functions (\<lambda>q. Inr [1, 0]) insertion_sort_values
         \<lparr>rows = [(0, \<lparr>code = ''def sub(a,b): return a-b'', function_name = Some ''sub'',
                        filepath = ''calc.py'', code_embedding = [1, 0]\<rparr>)],
          similarities = None\<rparr>
         ''subtract two numbers'' 3 True 7)
     \<noteq> \<lparr>rows = [(0, \<lparr>code = ''def sub(a,b): return a-b'', function_name = Some ''sub'',
                       filepath = ''calc.py'', code_embedding = [1, 0]\<rparr>)],
         similarities = None\<rparr>"
  by (simp add: search_functions_def cosine_similarity_def magnitude_def dot_def Let_def)

text \<open>
  Claim C8, amended. A call to search leaves the rows of the corpus as they were: every
  record with its code, name, path and embedding, the index labels and the order. When the
  call returns normally it has assigned the column \<^verbatim>\<open>similarities\<close> of the corpus: the
  cosine similarity of every row with the embedding of the query. When the call raises (the
  embedding or a similarity fails) the corpus is unchanged.
\<close>

theorem search_functions_frame:
  "search_functions get_embedding srt df q n pprint n_lines = (out, df') \<longrightarrow>
     rows df' = rows df
     \<and> (case out of
          Inl err \<Rightarrow> df' = df
        | Inr found \<Rightarrow>
            (\<exists>e scores. get_embedding q = Inr e
               \<and> map (\<lambda>x. cosine_similarity (code_embedding (snd x)) e) (rows df) = map Inr scores
               \<and> df' = df\<lparr>similarities := Some scores\<rparr>))"
proof
  assume run: "search_functions get_embedding srt df q n pprint n_lines = (out, df')"
  show "rows df' = rows df
     \<and> (case out of
          Inl err \<Rightarrow> df' = df
        | Inr found \<Rightarrow>
            (\<exists>e scores. get_embedding q = Inr e
               \<and> map (\<lambda>x. cosine_similarity (code_embedding (snd x)) e) (rows df) = map Inr scores
               \<and> df' = df\<lparr>similarities := Some scores\<rparr>))"
  proof (cases "get_embedding q")
    case (Inl err)
    with run show ?thesis
      by (auto simp: search_functions_def)
  next
    case (Inr e)
    show ?thesis
    proof (cases "series_apply (\<lambda>x. cosine_similarity (code_embedding (snd x)) e) (rows df)")
      case (Inl err)
      with run Inr show ?thesis
        by (auto simp: search_functions_def)
    next
      case scores: (Inr scores)
      have "map (\<lambda>x. cosine_similarity (code_embedding (snd x)) e) (rows df) = map Inr scores"
        using scores by (rule series_apply_Inr)
      moreover have "out = Inr (fst (projr out), snd (projr out)) \<and> df' = df\<lparr>similarities := Some scores\<rparr>"
        using run search_functions_Inr [of get_embedding q e df scores srt n pprint n_lines] Inr scores
        by auto
      ultimately show ?thesis
        using Inr by (cases out) auto
    qed
  qed
qed

theorem search_functions_frame_witness:
  "rows (snd (search_functions (\<lambda>q. Inr [1, 0]) insertion_sort_values
         \<lparr>rows = [(0, \<lparr>code = ''def sub(a,b): return a-b'', function_name = Some ''sub'',
                        filepath = ''calc.py'', code_embedding = [1, 0]\<rparr>)],
          similarities = None\<rparr>
         ''subtract two numbers'' 3 True 7))
     = [(0, \<lparr>code = ''def sub(a,b): return a-b'', function_name = Some ''sub'',
              filepath = ''calc.py'', code_embedding = [1, 0]\<rparr>)]"
  using search_functions_frame
    [of "\<lambda>q. Inr [1, 0]" insertion_sort_values
      "\<lparr>rows = [(0, \<lparr>code = ''def sub(a,b): return a-b'', function_name = Some ''sub'',
                        filepath = ''calc.py'', code_embedding = [1, 0]\<rparr>)],
          similarities = None\<rparr>"
      "''subtract two numbers''" 3 True 7
      "fst (search_functions (\<lambda>q. Inr [1, 0]) insertion_sort_values
         \<lparr>rows = [(0, \<lparr>code = ''def sub(a,b): return a-b'', function_name = Some ''sub'',
                        filepath = ''calc.py'', code_embedding = [1, 0]\<rparr>)],
          similarities = None\<rparr>
         ''subtract two numbers'' 3 True 7)"
      "snd (search_functions (\<lambda>q. Inr [1, 0]) insertion_sort_values
         \<lparr>rows = [(0, \<lparr>code = ''def sub(a,b): return a-b'', function_name = Some ''sub'',
                        filepath = ''calc.py'', code_embedding = [1, 0]\<rparr>)],
          similarities = None\<rparr>
         ''subtract two numbers'' 3 True 7)"]
  by simp

end
